theory Spec2Isabelle
  imports Main "HOL-Library.Word"
begin

section \<open>Data model\<close>

text \<open>
  The HTTP boundary of the service (\<^verbatim>\<open>core/http.go\<close>): the request archiver
  (\<^verbatim>\<open>NewLogRecord\<close>, \<^verbatim>\<open>flush\<close>, \<^verbatim>\<open>Logger\<close>, \<^verbatim>\<open>RequestLogger.Handle\<close>) and the
  live relay (\<^verbatim>\<open>streamer\<close>, \<^verbatim>\<open>drain\<close>).

  A \<^verbatim>\<open>[]byte\<close> is a list of 8-bit words; the nil slice and the empty slice are both
  \<open>[]\<close>. A \<^verbatim>\<open>time.Time\<close> is an opaque instant, modelled as a natural number whose zero
  value is \<open>0\<close>.
\<close>

type_synonym byte = "8 word"
type_synonym bytes = "byte list"
type_synonym timestamp = nat

record LogRecord =
  When :: timestamp
  Data_x64 :: string

text \<open>
  What a goroutine does next: it carries on with a value, it is parked on a channel
  operation (which one, and the state it is parked in), or it panics.
\<close>

datatype wait = InSelect | InReceive | InSend

datatype 'a outcome = Returns 'a | Blocked wait 'a | Panic

text \<open>A buffered Go channel: its capacity, the values buffered in it, whether it was closed.\<close>

record 'a chan =
  capacity :: nat
  queue :: "'a list"
  closed :: bool

subsection \<open>\<^verbatim>\<open>base64.StdEncoding\<close>\<close>

text \<open>
  The standard alphabet with \<open>=\<close> padding. \<^verbatim>\<open>EncodeToString\<close> packs three bytes into a
  24-bit value (\<^verbatim>\<open>val = b0<<16 | b1<<8 | b2\<close>) and emits the four sextets
  \<^verbatim>\<open>val>>18&0x3F\<close>, \<^verbatim>\<open>val>>12&0x3F\<close>, \<^verbatim>\<open>val>>6&0x3F\<close>, \<^verbatim>\<open>val&0x3F\<close>; the shifts are
  written as multiplications and divisions by powers of two, and the mask is in
  \<open>encode_sextet\<close>. \<^verbatim>\<open>DecodeString\<close> drops carriage returns and line feeds, then decodes
  quanta of four characters; conversion to \<^verbatim>\<open>byte\<close> truncates (\<open>of_nat\<close>).
\<close>

definition encodeStd :: string where
  "encodeStd = ''ABCDEFGHIJKLMNOPQRSTUVWXYZabcdefghijklmnopqrstuvwxyz0123456789+/''"

definition padChar :: char where
  "padChar = CHR ''=''"

definition encode_sextet :: "nat \<Rightarrow> char" where
  "encode_sextet v = encodeStd ! (v mod 64)"

fun index_of :: "'a \<Rightarrow> 'a list \<Rightarrow> nat option" where
  "index_of x [] = None"
| "index_of x (y # ys) = (if x = y then Some 0 else map_option Suc (index_of x ys))"

definition decode_sextet :: "char \<Rightarrow> nat option" where
  "decode_sextet c = index_of c encodeStd"

fun EncodeToString :: "bytes \<Rightarrow> string" where
  "EncodeToString [] = []"
| "EncodeToString [b0] =
     (let val = unat b0 * 65536
      in [encode_sextet (val div 262144), encode_sextet (val div 4096), padChar, padChar])"
| "EncodeToString [b0, b1] =
     (let val = unat b0 * 65536 + unat b1 * 256
      in [encode_sextet (val div 262144), encode_sextet (val div 4096),
          encode_sextet (val div 64), padChar])"
| "EncodeToString (b0 # b1 # b2 # src) =
     (let val = unat b0 * 65536 + unat b1 * 256 + unat b2
      in [encode_sextet (val div 262144), encode_sextet (val div 4096),
          encode_sextet (val div 64), encode_sextet val] @ EncodeToString src)"

fun decode_quanta :: "string \<Rightarrow> bytes option" where
  "decode_quanta [] = Some []"
| "decode_quanta (c0 # c1 # c2 # c3 # src) =
     (if src = [] \<and> c3 = padChar then
        (if c2 = padChar then
           (case (decode_sextet c0, decode_sextet c1) of
              (Some s0, Some s1) \<Rightarrow>
                (let val = s0 * 262144 + s1 * 4096 in Some [of_nat (val div 65536)])
            | _ \<Rightarrow> None)
         else
           (case (decode_sextet c0, decode_sextet c1, decode_sextet c2) of
              (Some s0, Some s1, Some s2) \<Rightarrow>
                (let val = s0 * 262144 + s1 * 4096 + s2 * 64
                 in Some [of_nat (val div 65536), of_nat (val div 256)])
            | _ \<Rightarrow> None))
      else
        (case (decode_sextet c0, decode_sextet c1, decode_sextet c2, decode_sextet c3) of
           (Some s0, Some s1, Some s2, Some s3) \<Rightarrow>
             (let val = s0 * 262144 + s1 * 4096 + s2 * 64 + s3
              in case decode_quanta src of
                   None \<Rightarrow> None
                 | Some dst \<Rightarrow>
                     Some (of_nat (val div 65536) # of_nat (val div 256) # of_nat val # dst))
         | _ \<Rightarrow> None))"
| "decode_quanta _ = None"

definition removeNewlines :: "string \<Rightarrow> string" where
  "removeNewlines s = filter (\<lambda>c. c \<noteq> CHR 0x0D \<and> c \<noteq> CHR 0x0A) s"

definition DecodeString :: "string \<Rightarrow> bytes option" where
  "DecodeString s = decode_quanta (removeNewlines s)"

subsection \<open>The collaborators of the archiver\<close>

text \<open>
  The archiver calls into packages outside \<^verbatim>\<open>core/http.go\<close>; each is a parameter:
  \<^item> \<open>gzip_stream data\<close>: the bytes a \<^verbatim>\<open>gzip.Writer\<close> over a \<^verbatim>\<open>bytes.Buffer\<close> has put
    into the buffer after \<^verbatim>\<open>Write(data)\<close>, \<^verbatim>\<open>Flush()\<close>, \<^verbatim>\<open>Close()\<close>;
  \<^item> \<open>time_at n\<close>: what the \<open>n\<close>-th call of \<^verbatim>\<open>time.Now()\<close> returns;
  \<^item> \<open>pilosa_request_log\<close>: the configured base path;
  \<^item> \<open>time_Format t\<close>: \<^verbatim>\<open>t.Format("/2006/01/02/15/04-05")\<close>;
  \<^item> \<open>util_Create dest\<close>: the error of \<^verbatim>\<open>util.Create(dest)\<close>, \<open>None\<close> when the file
    was created;
  \<^item> \<open>json_Marshal v\<close>: the JSON text of a record, or the marshalling error.
\<close>

record env =
  gzip_stream :: "bytes \<Rightarrow> bytes"
  time_at :: "nat \<Rightarrow> timestamp"
  pilosa_request_log :: string
  time_Format :: "timestamp \<Rightarrow> string"
  util_Create :: "string \<Rightarrow> string option"
  json_Marshal :: "LogRecord \<Rightarrow> string + string"

text \<open>
  What the archiver changes outside itself: the clock readings taken so far, the archive
  files written (destination and lines, in order of creation) and the lines given to
  \<^verbatim>\<open>log.Println\<close>.
\<close>

record world =
  ticks :: nat
  files :: "(string \<times> string list) list"
  stdlog :: "string list"

definition time_Now :: "env \<Rightarrow> world \<Rightarrow> timestamp \<times> world" where
  "time_Now e w = (time_at e (ticks w), w\<lparr>ticks := Suc (ticks w)\<rparr>)"

definition log_Println :: "string \<Rightarrow> world \<Rightarrow> world" where
  "log_Println line w = w\<lparr>stdlog := stdlog w @ [line]\<rparr>"

section \<open>The archiver\<close>

definition NewLogRecord :: "env \<Rightarrow> timestamp \<Rightarrow> bytes \<Rightarrow> LogRecord" where
  "NewLogRecord e t data =
     (let b = gzip_stream e data;
          e64 = EncodeToString b
      in \<lparr>When = t, Data_x64 = e64\<rparr>)"

text \<open>Reading a record back: base64-decode \<open>Data_x64\<close>, then gunzip.\<close>

definition decode_Data_x64 :: "(bytes \<Rightarrow> bytes option) \<Rightarrow> LogRecord \<Rightarrow> bytes option" where
  "decode_Data_x64 gunzip r =
     (case DecodeString (Data_x64 r) of None \<Rightarrow> None | Some z \<Rightarrow> gunzip z)"

definition genFileName :: "env \<Rightarrow> string \<Rightarrow> world \<Rightarrow> string \<times> world" where
  "genFileName e ident w =
     (let (t, w1) = time_Now e w;
          base = pilosa_request_log e
      in (base @ time_Format e t @ ''.'' @ ident @ ''.log'', w1))"

text \<open>
  \<^verbatim>\<open>encoder.Encode(v)\<close>: a record that marshals is written as one line; one that does
  not is reported by the returned error and nothing is written for it.
\<close>

definition Encode :: "env \<Rightarrow> string list \<Rightarrow> LogRecord \<Rightarrow> string option \<times> string list" where
  "Encode e out v =
     (case json_Marshal e v of
        Inl err \<Rightarrow> (Some err, out)
      | Inr js \<Rightarrow> (None, out @ [js]))"

text \<open>
  The loop of \<^verbatim>\<open>flush\<close>, \<^verbatim>\<open>for i := 0; i < records_to_dump; i++\<close>, from index \<open>k\<close>
  on. The error \<^verbatim>\<open>Encode\<close> returns is dropped (\<open>snd\<close>). \<^verbatim>\<open>requests[i]\<close> beyond the
  slice panics: \<open>None\<close>.
\<close>

function encode_loop ::
  "env \<Rightarrow> LogRecord list \<Rightarrow> nat \<Rightarrow> nat \<Rightarrow> string list \<Rightarrow> string list option" where
  "encode_loop e requests records_to_dump k out =
     (if k < records_to_dump then
        (if k < length requests then
           encode_loop e requests records_to_dump (Suc k) (snd (Encode e out (requests ! k)))
         else None)
      else Some out)"
  by pat_completeness auto
termination
  by (relation "measure (\<lambda>(e, requests, records_to_dump, k, out). records_to_dump - k)") auto

declare encode_loop.simps [simp del]

text \<open>
  \<^verbatim>\<open>flush\<close>. \<open>None\<close> is the panic of an index out of range. The cursor of \<^verbatim>\<open>Logger\<close>
  starts at 0 and only counts up, so \<^verbatim>\<open>records_to_dump\<close> is a natural number.
\<close>

definition flush :: "env \<Rightarrow> LogRecord list \<Rightarrow> string \<Rightarrow> nat \<Rightarrow> world \<Rightarrow> world option" where
  "flush e requests ident records_to_dump w =
     (let (dest, w1) = genFileName e ident w
      in case util_Create e dest of
           Some err \<Rightarrow>
             Some (log_Println err (log_Println (''Error opening outfile  '' @ dest) w1))
         | None \<Rightarrow>
             (case encode_loop e requests records_to_dump 0 [] of
                None \<Rightarrow> None
              | Some lines \<Rightarrow> Some (w1\<lparr>files := files w1 @ [(dest, lines)]\<rparr>)))"

text \<open>
  The state of \<^verbatim>\<open>Logger\<close>: its buffer, the local \<^verbatim>\<open>i\<close> (\<open>cursor\<close>), whether it has
  returned, and the world. One iteration of its \<^verbatim>\<open>select\<close> receives one of three things.
\<close>

record logger_state =
  buffer :: "LogRecord list"
  cursor :: nat
  stopped :: bool
  outside :: world

datatype event = NewPayload bytes | FlushNow | Shutdown

fun Logger_select :: "env \<Rightarrow> string \<Rightarrow> event \<Rightarrow> logger_state \<Rightarrow> logger_state option" where
  "Logger_select e ident (NewPayload raw) st =
     (let (t, w1) = time_Now e (outside st);
          logRecord = NewLogRecord e t raw
      in if cursor st < length (buffer st) then
           (let buffer1 = (buffer st)[cursor st := logRecord];
                i1 = cursor st + 1
            in if i1 > 2047 then
                 (case flush e buffer1 ident i1 w1 of
                    None \<Rightarrow> None
                  | Some w2 \<Rightarrow> Some (st\<lparr>buffer := buffer1, cursor := 0, outside := w2\<rparr>))
               else Some (st\<lparr>buffer := buffer1, cursor := i1, outside := w1\<rparr>))
         else None)"
| "Logger_select e ident FlushNow st =
     (if cursor st > 0 then
        (case flush e (buffer st) ident (cursor st) (outside st) of
           None \<Rightarrow> None
         | Some w1 \<Rightarrow> Some (st\<lparr>cursor := 0, outside := w1\<rparr>))
      else Some st)"
| "Logger_select e ident Shutdown st =
     (case flush e (buffer st) ident (cursor st) (outside st) of
        None \<Rightarrow> None
      | Some w1 \<Rightarrow> Some (st\<lparr>stopped := True, outside := log_Println ''Shutdown Logger'' w1\<rparr>))"

text \<open>
  The \<^verbatim>\<open>for\<close> loop of \<^verbatim>\<open>Logger\<close> over the sequence of things its \<^verbatim>\<open>select\<close> receives.
  It gives the state reached and what was left unreceived: with nothing left the
  goroutine waits in \<^verbatim>\<open>select\<close>; after \<^verbatim>\<open>return\<close> the rest is never received.
\<close>

fun Logger_loop ::
  "env \<Rightarrow> string \<Rightarrow> event list \<Rightarrow> logger_state \<Rightarrow> (logger_state \<times> event list) option" where
  "Logger_loop e ident [] st = Some (st, [])"
| "Logger_loop e ident (ev # evs) st =
     (case Logger_select e ident ev st of
        None \<Rightarrow> None
      | Some st1 \<Rightarrow> if stopped st1 then Some (st1, evs) else Logger_loop e ident evs st1)"

definition zero_LogRecord :: LogRecord where
  "zero_LogRecord = \<lparr>When = 0, Data_x64 = []\<rparr>"

definition Logger_init :: "world \<Rightarrow> logger_state" where
  "Logger_init w =
     \<lparr>buffer = replicate 2048 zero_LogRecord, cursor = 0, stopped = False, outside = w\<rparr>"

definition Logger :: "env \<Rightarrow> string \<Rightarrow> event list \<Rightarrow> world \<Rightarrow> (logger_state \<times> event list) option" where
  "Logger e ident evs w = Logger_loop e ident evs (Logger_init w)"

section \<open>The archiving adapter\<close>

text \<open>
  The state a wrapped request runs in: the exchange (the \<^verbatim>\<open>http.ResponseWriter\<close> and the
  \<^verbatim>\<open>*http.Request\<close>, which the inner handler may read and change), the lines given
  to \<^verbatim>\<open>log.Println\<close>, and the channel \<^verbatim>\<open>self.logger\<close> refers to.
\<close>

record 'x exchange_state =
  exchange :: 'x
  printed :: "string list"
  logger :: "bytes chan"

text \<open>
  A send \<^verbatim>\<open>ch <- v\<close>: it panics on a closed channel, completes while the buffer has
  room, and otherwise parks the sender until a receiver makes room.
\<close>

definition chan_send :: "'a chan \<Rightarrow> 'a \<Rightarrow> 'a chan outcome" where
  "chan_send ch v =
     (if closed ch then Panic
      else if length (queue ch) < capacity ch then Returns (ch\<lparr>queue := queue ch @ [v]\<rparr>)
      else Blocked InSend ch)"

text \<open>
  \<^verbatim>\<open>RequestLogger.Handle\<close>. \<open>DumpRequest\<close> is \<^verbatim>\<open>httputil.DumpRequest(r, true)\<close>: it
  gives the dump or the error (with the error the dump is nil), and the exchange as it
  leaves it, since it reads the body of the request and puts a copy back. \<open>handler\<close> is
  the wrapped handler; \<open>None\<close> when it panics or does not return.
\<close>

definition Handle ::
  "('x \<Rightarrow> (string + bytes) \<times> 'x) \<Rightarrow> ('x exchange_state \<Rightarrow> 'x exchange_state option) \<Rightarrow>
     'x exchange_state \<Rightarrow> 'x exchange_state outcome" where
  "Handle DumpRequest handler s =
     (let (result, x1) = DumpRequest (exchange s);
          (dump, err) = (case result of
                           Inl failure \<Rightarrow> ([], Some failure)
                         | Inr d \<Rightarrow> (d, None));
          s0 = s\<lparr>exchange := x1\<rparr>;
          s1 = (case err of
                  Some failure \<Rightarrow> s0\<lparr>printed := printed s0 @ [''Dump Failure '' @ failure]\<rparr>
                | None \<Rightarrow> s0)
      in case handler s1 of
           None \<Rightarrow> Panic
         | Some s2 \<Rightarrow>
             (case chan_send (logger s2) dump of
                Returns ch \<Rightarrow> Returns (s2\<lparr>logger := ch\<rparr>)
              | Blocked at ch \<Rightarrow> Blocked at s2
              | Panic \<Rightarrow> Panic))"

section \<open>The live relay\<close>

text \<open>
  The values that travel on the bus are \<^verbatim>\<open>interface{}\<close>. The relay looks at a payload
  only through \<^verbatim>\<open>reflect.TypeOf(data).String()\<close> and \<^verbatim>\<open>spew.Sdump(data)\<close>, so a
  payload is those two strings, or nil. \<^verbatim>\<open>*db.Message\<close> carries \<^verbatim>\<open>Data\<close>;
  \<^verbatim>\<open>*db.Envelope\<close> carries \<^verbatim>\<open>Message.Data\<close> and \<^verbatim>\<open>Host.String()\<close>.
\<close>

datatype payload = NilData | Data string string

datatype obj = MessagePtr payload | EnvelopePtr payload string | BoolObj bool | NilObj

record frame =
  frame_type :: string
  frame_dump :: string
  frame_host :: string

text \<open>
  The state a relay runs in: the channels made so far (a channel value is its index), the
  registrations of the bus (event name and channel, in order), the connection behind the
  writer, and the lines given to \<^verbatim>\<open>log.Println\<close>.
\<close>

record 'c relay_state =
  chans :: "obj chan list"
  events :: "(string \<times> nat) list"
  conn :: 'c
  relay_log :: "string list"

definition make_chan :: "nat \<Rightarrow> 'c relay_state \<Rightarrow> nat \<times> 'c relay_state" where
  "make_chan n s =
     (length (chans s), s\<lparr>chans := chans s @ [\<lparr>capacity = n, queue = [], closed = False\<rparr>]\<rparr>)"

text \<open>
  Modelled from the spec: the bus (\<^verbatim>\<open>github.com/bitly/go-notify\<close>) is outside
  \<^verbatim>\<open>core/http.go\<close>. \<open>notify_Start\<close> registers a channel for an event and \<open>notify_Stop\<close> removes that
  registration; \<open>notify_Post\<close> sends a value to every channel registered for the event, and
  is \<open>None\<close> when one of them is full (the publisher would wait). Whether \<open>notify_Stop\<close>
  also closes the channel is the parameter \<open>closing\<close>.
\<close>

definition notify_Start :: "string \<Rightarrow> nat \<Rightarrow> 'c relay_state \<Rightarrow> 'c relay_state" where
  "notify_Start event ch s = s\<lparr>events := events s @ [(event, ch)]\<rparr>"

definition notify_Stop :: "bool \<Rightarrow> string \<Rightarrow> nat \<Rightarrow> 'c relay_state \<Rightarrow> 'c relay_state" where
  "notify_Stop closing event ch s =
     (if (event, ch) \<in> set (events s) then
        s\<lparr>events := filter (\<lambda>p. p \<noteq> (event, ch)) (events s),
          chans := (if closing \<and> ch < length (chans s)
                    then (chans s)[ch := (chans s ! ch)\<lparr>closed := True\<rparr>]
                    else chans s)\<rparr>
      else s)"





text \<open>
  A receive \<^verbatim>\<open><-ch\<close> can proceed when the buffer holds a value or the channel is
  closed; from a closed, empty channel it yields the zero value, nil.
\<close>

definition ready :: "nat \<Rightarrow> 'c relay_state \<Rightarrow> bool" where
  "ready ch s =
     (ch < length (chans s) \<and>
      (case queue (chans s ! ch) of [] \<Rightarrow> closed (chans s ! ch) | v # vs \<Rightarrow> True))"

definition receive :: "nat \<Rightarrow> 'c relay_state \<Rightarrow> obj \<times> 'c relay_state" where
  "receive ch s =
     (case queue (chans s ! ch) of
        [] \<Rightarrow> (NilObj, s)
      | v # vs \<Rightarrow> (v, s\<lparr>chans := (chans s)[ch := (chans s ! ch)\<lparr>queue := vs\<rparr>]\<rparr>))"

definition pending :: "nat \<Rightarrow> 'c relay_state \<Rightarrow> nat" where
  "pending ch s = (if ch < length (chans s) then length (queue (chans s ! ch)) else 0)"

text \<open>
  \<^verbatim>\<open>drain\<close>. Its body is \<^verbatim>\<open>switch { case <-ch: default: return }\<close>, an expression
  switch with no tag: the case expression \<^verbatim>\<open><-ch\<close> is evaluated, which is a receive that
  waits, and its value is compared with \<^verbatim>\<open>true\<close>; only then is \<^verbatim>\<open>default\<close> taken.
\<close>

function drain :: "nat \<Rightarrow> 'c relay_state \<Rightarrow> 'c relay_state outcome" where
  "drain ch s =
     (if ready ch s then
        (let (v, s1) = receive ch s
         in if v = BoolObj True then drain ch s1 else Returns s1)
      else Blocked InReceive s)"
  by pat_completeness auto
termination
proof (relation "measure (\<lambda>(ch, s). pending ch s)")
  show "wf (measure (\<lambda>(ch, s). pending ch s))" by simp
next
  fix ch and s :: "'c relay_state" and x v s1
  assume "ready ch s" and "x = receive ch s" and "(v, s1) = x" and "v = BoolObj True"
  then show "((ch, s1), (ch, s)) \<in> measure (\<lambda>(ch, s). pending ch s)"
    by (auto simp: receive_def ready_def pending_def split: list.splits)
qed

declare drain.simps [simp del]

text \<open>
  The teardown of \<^verbatim>\<open>streamer\<close> after the writer has failed.
\<close>

definition teardown :: "bool \<Rightarrow> nat \<Rightarrow> nat \<Rightarrow> 'c relay_state \<Rightarrow> 'c relay_state outcome" where
  "teardown closing inbox outbox s =
     (let s1 = s\<lparr>relay_log := relay_log s @ [''stopping'']\<rparr>;
          s2 = notify_Stop closing ''inbox'' inbox s1;
          s3 = notify_Stop closing ''outbox'' outbox s2
      in case drain inbox s3 of
           Returns s4 \<Rightarrow> drain outbox s4
         | Blocked at s4 \<Rightarrow> Blocked at s4
         | Panic \<Rightarrow> Panic)"

text \<open>
  The \<^verbatim>\<open>select\<close> of \<^verbatim>\<open>streamer\<close> has the cases \<^verbatim>\<open>obj = <-outbox\<close> and
  \<^verbatim>\<open>obj = <-inbox\<close>. When both can proceed Go picks one at random: \<open>pick_outbox\<close> is
  that choice. When neither can, the goroutine waits.
\<close>

datatype source = FromOutbox | FromInbox

definition select_case :: "bool \<Rightarrow> nat \<Rightarrow> nat \<Rightarrow> 'c relay_state \<Rightarrow> source option" where
  "select_case pick_outbox outbox inbox s =
     (if ready outbox s \<and> ready inbox s then Some (if pick_outbox then FromOutbox else FromInbox)
      else if ready outbox s then Some FromOutbox
      else if ready inbox s then Some FromInbox
      else None)"

text \<open>
  The type assertions \<^verbatim>\<open>obj.(*db.Envelope)\<close> and \<^verbatim>\<open>obj.(*db.Message)\<close> with the
  assignments to \<^verbatim>\<open>data\<close> and \<^verbatim>\<open>host\<close> that follow them; \<open>None\<close> is the panic of a
  failed assertion.
\<close>

fun unpack :: "source \<Rightarrow> obj \<Rightarrow> (payload \<times> string) option" where
  "unpack FromOutbox (EnvelopePtr data host) = Some (data, host)"
| "unpack FromInbox (MessagePtr data) = Some (data, [])"
| "unpack src v = None"

text \<open>
  One iteration of the \<^verbatim>\<open>for\<close> loop of \<^verbatim>\<open>streamer\<close>: \<open>Inl\<close> the state to go round
  again with, \<open>Inr\<close> how the function ends. \<^verbatim>\<open>reflect.TypeOf(data)\<close> of a nil payload
  is nil, and \<^verbatim>\<open>typ.String()\<close> panics on it. The writer gets the frame and the
  connection, and gives the error (\<open>None\<close> for nil) and the connection.
\<close>

definition relay_once ::
  "bool \<Rightarrow> (frame \<Rightarrow> 'c \<Rightarrow> string option \<times> 'c) \<Rightarrow> bool \<Rightarrow> nat \<Rightarrow> nat \<Rightarrow> 'c relay_state \<Rightarrow>
     'c relay_state + 'c relay_state outcome" where
  "relay_once closing writer pick_outbox inbox outbox s =
     (case select_case pick_outbox outbox inbox s of
        None \<Rightarrow> Inr (Blocked InSelect s)
      | Some src \<Rightarrow>
          (let (v, s1) = receive (case src of FromOutbox \<Rightarrow> outbox | FromInbox \<Rightarrow> inbox) s
           in case unpack src v of
                None \<Rightarrow> Inr Panic
              | Some (NilData, host) \<Rightarrow> Inr Panic
              | Some (Data typ dump, host) \<Rightarrow>
                  (let (err, c1) = writer \<lparr>frame_type = typ, frame_dump = dump, frame_host = host\<rparr>
                                     (conn s1);
                       s2 = s1\<lparr>conn := c1\<rparr>
                   in case err of
                        Some failure \<Rightarrow> Inr (teardown closing inbox outbox s2)
                      | None \<Rightarrow> Inl s2)))"

function streamer_loop ::
  "bool \<Rightarrow> (frame \<Rightarrow> 'c \<Rightarrow> string option \<times> 'c) \<Rightarrow> (nat \<Rightarrow> bool) \<Rightarrow> nat \<Rightarrow> nat \<Rightarrow> nat \<Rightarrow>
     'c relay_state \<Rightarrow> 'c relay_state outcome" where
  "streamer_loop closing writer pick inbox outbox k s =
     (case relay_once closing writer (pick k) inbox outbox s of
        Inl s1 \<Rightarrow> streamer_loop closing writer pick inbox outbox (Suc k) s1
      | Inr result \<Rightarrow> result)"
  by pat_completeness auto
termination
proof (relation "measure (\<lambda>(closing, writer, pick, inbox, outbox, k, s).
                            pending inbox s + pending outbox s)")
  show "wf (measure (\<lambda>(closing, writer, pick, inbox, outbox, k, s).
                            pending inbox s + pending outbox s))" by simp
next
  fix closing :: bool and writer :: "frame \<Rightarrow> 'c \<Rightarrow> string option \<times> 'c" and pick :: "nat \<Rightarrow> bool"
    and inbox outbox k :: nat and s s1 :: "'c relay_state"
  assume "relay_once closing writer (pick k) inbox outbox s = Inl s1"
  then have "pending inbox s1 + pending outbox s1 < pending inbox s + pending outbox s"
    by (auto simp: relay_once_def select_case_def receive_def ready_def pending_def Let_def
        nth_list_update
        split: option.splits list.splits source.splits prod.splits payload.splits if_splits
        elim!: unpack.elims)
  then show "((closing, writer, pick, inbox, outbox, Suc k, s1),
              (closing, writer, pick, inbox, outbox, k, s))
               \<in> measure (\<lambda>(closing, writer, pick, inbox, outbox, k, s).
                            pending inbox s + pending outbox s)"
    by simp
qed

declare streamer_loop.simps [simp del]

text \<open>
  \<^verbatim>\<open>streamer\<close>: the two channels are made and registered, then the loop runs.
\<close>

definition streamer_start :: "'c relay_state \<Rightarrow> nat \<times> nat \<times> 'c relay_state" where
  "streamer_start s =
     (let (inbox, s1) = make_chan 10 s;
          (outbox, s2) = make_chan 10 s1;
          s3 = notify_Start ''inbox'' inbox s2;
          s4 = notify_Start ''outbox'' outbox s3
      in (inbox, outbox, s4))"

definition streamer ::
  "bool \<Rightarrow> (frame \<Rightarrow> 'c \<Rightarrow> string option \<times> 'c) \<Rightarrow> (nat \<Rightarrow> bool) \<Rightarrow> 'c relay_state \<Rightarrow>
     'c relay_state outcome" where
  "streamer closing writer pick s =
     (let (inbox, outbox, s1) = streamer_start s
      in streamer_loop closing writer pick inbox outbox 0 s1)"

section \<open>Describing what was archived\<close>

text \<open>
  \<open>encodable\<close> says that a record marshals, \<open>json_text\<close> is the line written for it,
  and \<open>marshalled\<close> lists the lines of those records of a batch that marshal, in order.
  \<open>records_from e n raws\<close> are the records made from successive payloads when the clock
  has been read \<open>n\<close> times, and \<open>dest_at e ident n\<close> is the file name built from the
  \<open>n\<close>-th clock reading.
\<close>

definition encodable :: "env \<Rightarrow> LogRecord \<Rightarrow> bool" where
  "encodable e v = (case json_Marshal e v of Inl err \<Rightarrow> False | Inr js \<Rightarrow> True)"

definition json_text :: "env \<Rightarrow> LogRecord \<Rightarrow> string" where
  "json_text e v = (case json_Marshal e v of Inl err \<Rightarrow> [] | Inr js \<Rightarrow> js)"

definition marshalled :: "env \<Rightarrow> LogRecord list \<Rightarrow> string list" where
  "marshalled e vs = map (json_text e) (filter (encodable e) vs)"


definition dest_at :: "env \<Rightarrow> string \<Rightarrow> nat \<Rightarrow> string" where
  "dest_at e ident n = pilosa_request_log e @ time_Format e (time_at e n) @ ''.'' @ ident @ ''.log''"

section \<open>Concrete inputs\<close>

text \<open>
  An environment in which files can be created and every record marshals except one
  stamped with instant 1; a stand-in compressor that prefixes the two gzip magic bytes,
  with its inverse; an environment in which no file can be created.
\<close>

definition env0 :: env where
  "env0 = \<lparr>gzip_stream = (\<lambda>data. 31 # 139 # data),
           time_at = (\<lambda>n. n),
           pilosa_request_log = ''/tmp/set_bit_log'',
           time_Format = (\<lambda>t. if t = 0 then ''/2013/08/01/12/00-00'' else ''/2013/08/01/12/00-01''),
           util_Create = (\<lambda>dest. None),
           json_Marshal = (\<lambda>v. if When v = 1 then Inl ''year outside of range [0,9999]''
                                 else Inr (Data_x64 v))\<rparr>"

definition gunzip0 :: "bytes \<Rightarrow> bytes option" where
  "gunzip0 z = (case z of a # b # data \<Rightarrow> if a = 31 \<and> b = 139 then Some data else None
                | _ \<Rightarrow> None)"

definition env_denied :: env where
  "env_denied = env0\<lparr>util_Create := \<lambda>dest. Some ''permission denied''\<rparr>"

definition world0 :: world where
  "world0 = \<lparr>ticks = 0, files = [], stdlog = []\<rparr>"

definition five_records :: "LogRecord list" where
  "five_records = map (\<lambda>n. \<lparr>When = n, Data_x64 = ''H4sIAAAAAAAA''\<rparr>) [2, 3, 4, 5, 6]"

definition state5 :: logger_state where
  "state5 = \<lparr>buffer = five_records @ replicate 2043 zero_LogRecord, cursor = 5, stopped = False,
             outside = world0\<rparr>"

definition three_records :: "LogRecord list" where
  "three_records = [\<lparr>When = 0, Data_x64 = ''AAAA''\<rparr>, \<lparr>When = 1, Data_x64 = ''BBBB''\<rparr>,
                    \<lparr>When = 2, Data_x64 = ''CCCC''\<rparr>]"

text \<open>
  A request whose exchange is just its body, a handler that consumes the body and itself
  puts a payload on the channel, a dump that succeeds and leaves the body as it was, and
  one that fails after reading the body away.
\<close>

definition request0 :: "bytes exchange_state" where
  "request0 = \<lparr>exchange = [1, 2, 3], printed = [],
               logger = \<lparr>capacity = 1024, queue = [], closed = False\<rparr>\<rparr>"

definition consuming_handler :: "bytes exchange_state \<Rightarrow> bytes exchange_state option" where
  "consuming_handler s =
     Some (s\<lparr>exchange := [], logger := (logger s)\<lparr>queue := queue (logger s) @ [[7]]\<rparr>\<rparr>)"

definition dump_ok :: "bytes \<Rightarrow> (string + bytes) \<times> bytes" where
  "dump_ok body = (Inr body, body)"

definition dump_fails :: "bytes \<Rightarrow> (string + bytes) \<times> bytes" where
  "dump_fails body = (Inl ''unexpected EOF'', [])"

text \<open>
  A bus with nothing on it, a message, a writer whose client is gone, and the state of a
  relay whose inbox holds that one message.
\<close>

definition relay0 :: "frame list relay_state" where
  "relay0 = \<lparr>chans = [], events = [], conn = [], relay_log = []\<rparr>"

definition ping :: obj where
  "ping = MessagePtr (Data ''db.Ping'' ''(db.Ping) {}'')"

definition gone :: "frame \<Rightarrow> frame list \<Rightarrow> string option \<times> frame list" where
  "gone f sent = (Some ''write: broken pipe'', sent)"

definition one_pending :: "frame list relay_state" where
  "one_pending =
     \<lparr>chans = [\<lparr>capacity = 10, queue = [ping], closed = False\<rparr>,
               \<lparr>capacity = 10, queue = [], closed = False\<rparr>],
      events = [(''inbox'', 0), (''outbox'', 1)], conn = [], relay_log = []\<rparr>"


section \<open>Base64 round trip\<close>

lemma distinct_encodeStd: "distinct encodeStd"
  by (simp add: encodeStd_def)

lemma length_encodeStd: "length encodeStd = 64"
  by (simp add: encodeStd_def)

lemma index_of_nth: "distinct xs \<Longrightarrow> k < length xs \<Longrightarrow> index_of (xs ! k) xs = Some k"
proof (induction xs arbitrary: k)
  case Nil
  then show ?case by simp
next
  case (Cons x xs)
  show ?case
  proof (cases k)
    case 0
    then show ?thesis by simp
  next
    case (Suc j)
    with Cons.prems have "xs ! j \<noteq> x" "j < length xs" "distinct xs" by auto
    with Cons.IH[of j] Suc show ?thesis by auto
  qed
qed


lemma sextets_recombine:
  "(v div 262144 mod 64) * 262144 + (v div 4096 mod 64) * 4096 + (v div 64 mod 64) * 64 + v mod 64
     = v mod (16777216 :: nat)"
  using mod_mult2_eq[of v 64 64] mod_mult2_eq[of v 4096 64] mod_mult2_eq[of v 262144 64]
  by simp

lemma byte_of_nat_mod: "(of_nat n :: byte) = of_nat (n mod 256)"
  by (simp add: word_of_nat_eq_iff take_bit_eq_mod)

lemma unat_byte_less: "unat (b :: byte) < 256"
  using unsigned_less[of b, where 'a=nat] by simp

lemma val3_hi: "b < 256 \<Longrightarrow> c < (256::nat) \<Longrightarrow> (a * 65536 + b * 256 + c) div 65536 = a"
  by simp

lemma val3_mid: 
  assumes "c < (256::nat)" shows "(a * 65536 + b * 256 + c) div 256 mod 256 = b mod 256"
proof -
  have "a * 65536 + b * 256 + c = (a * 256 + b) * 256 + c" by simp
  then have "(a * 65536 + b * 256 + c) div 256 = a * 256 + b" using assms by simp
  then show ?thesis by simp
qed

lemma val3_lo: "(a * 65536 + b * 256 + c) mod 256 = c mod (256::nat)"
proof -
  have "a * 65536 + b * 256 + c = (a * 256 + b) * 256 + c" by simp
  then show ?thesis by (metis mod_mult_self3)
qed

lemma byte3:
  fixes b0 b1 b2 :: byte
  defines "v \<equiv> unat b0 * 65536 + unat b1 * 256 + unat b2"
  shows "(of_nat (v div 65536) :: byte) = b0" "(of_nat (v div 256) :: byte) = b1" "(of_nat v :: byte) = b2"
    "v < 16777216"
proof -
  note bd = unat_byte_less[of b0] unat_byte_less[of b1] unat_byte_less[of b2]
  show "(of_nat (v div 65536) :: byte) = b0" unfolding v_def using bd by (simp only: val3_hi) simp
  have "(of_nat (v div 256) :: byte) = of_nat (unat b1 mod 256)"
    unfolding v_def using bd val3_mid[of "unat b2" "unat b0" "unat b1"] byte_of_nat_mod by metis
  then show "(of_nat (v div 256) :: byte) = b1" using bd by simp
  have "(of_nat v :: byte) = of_nat (unat b2 mod 256)"
    unfolding v_def using val3_lo[of "unat b0" "unat b1" "unat b2"] byte_of_nat_mod by metis
  then show "(of_nat v :: byte) = b2" using bd by simp
  show "v < 16777216" unfolding v_def using bd by simp
qed

lemma div_trunc12_hi: "(v div 4096 * 4096) div 65536 = v div (65536::nat)"
proof -
  have "(v div 4096 * 4096) div (4096 * 16) = (v div 4096 * 4096) div 4096 div 16"
    by (rule div_mult2_eq)
  also have "\<dots> = v div 4096 div 16" by simp
  also have "\<dots> = v div (4096 * 16)" by (rule div_mult2_eq[symmetric])
  finally show ?thesis by simp
qed

lemma div_trunc6_hi: "(v div 64 * 64) div 65536 = v div (65536::nat)"
proof -
  have "(v div 64 * 64) div (64 * 1024) = (v div 64 * 64) div 64 div 1024"
    by (rule div_mult2_eq)
  also have "\<dots> = v div 64 div 1024" by simp
  also have "\<dots> = v div (64 * 1024)" by (rule div_mult2_eq[symmetric])
  finally show ?thesis by simp
qed

lemma div_trunc6_mid: "(v div 64 * 64) div 256 = v div (256::nat)"
proof -
  have "(v div 64 * 64) div (64 * 4) = (v div 64 * 64) div 64 div 4"
    by (rule div_mult2_eq)
  also have "\<dots> = v div 64 div 4" by simp
  also have "\<dots> = v div (64 * 4)" by (rule div_mult2_eq[symmetric])
  finally show ?thesis by simp
qed

lemma sextets_trunc6:
  assumes "v < (16777216::nat)"
  shows "(v div 262144 mod 64) * 262144 + (v div 4096 mod 64) * 4096 + (v div 64 mod 64) * 64
           = v div 64 * 64"
proof -
  have "v mod 16777216 = v" using assms by simp
  moreover have "v = v div 64 * 64 + v mod 64" by simp
  ultimately show ?thesis using sextets_recombine[of v] by linarith
qed

lemma sextets_trunc12:
  assumes "v < (16777216::nat)"
  shows "(v div 262144 mod 64) * 262144 + (v div 4096 mod 64) * 4096 = v div 4096 * 4096"
proof -
  have d: "v div 64 div 64 = v div 4096"
    using div_mult2_eq[of v 64 64] by simp
  have "v div 64 = v div 64 div 64 * 64 + v div 64 mod 64"
    by simp
  then have "v div 64 * 64 = (v div 4096 * 64 + v div 64 mod 64) * 64"
    unfolding d by (rule arg_cong)
  then have "v div 64 * 64 = v div 4096 * 4096 + (v div 64 mod 64) * 64"
    by (simp add: algebra_simps)
  then show ?thesis using sextets_trunc6[OF assms] by linarith
qed

lemma sextets_full:
  assumes "v < (16777216::nat)"
  shows "(v div 262144 mod 64) * 262144 + (v div 4096 mod 64) * 4096 + (v div 64 mod 64) * 64 + v mod 64 = v"
  using sextets_recombine[of v] assms by simp

lemma decode_encode_sextet: "decode_sextet (encode_sextet v) = Some (v mod 64)"
  unfolding decode_sextet_def encode_sextet_def
  by (rule index_of_nth[OF distinct_encodeStd]) (simp add: length_encodeStd)

lemma encode_sextet_in: "encode_sextet v \<in> set encodeStd"
  unfolding encode_sextet_def by (rule nth_mem) (simp add: length_encodeStd)

lemma pad_not_in_encodeStd: "padChar \<notin> set encodeStd"
  by (simp add: encodeStd_def padChar_def)

lemma encode_sextet_not_pad: "encode_sextet v \<noteq> padChar"
  using encode_sextet_in[of v] pad_not_in_encodeStd by metis

lemma decode_quanta_final1:
  assumes "v < 16777216"
  shows "decode_quanta [encode_sextet (v div 262144), encode_sextet (v div 4096), padChar, padChar]
           = Some [of_nat (v div 65536)]"
proof -
  define s0 where "s0 = v div 262144 mod 64"
  define s1 where "s1 = v div 4096 mod 64"
  have d: "decode_sextet (encode_sextet (v div 262144)) = Some s0"
    "decode_sextet (encode_sextet (v div 4096)) = Some s1"
    by (simp_all only: decode_encode_sextet s0_def s1_def)
  have eq: "s0 * 262144 + s1 * 4096 = v div 4096 * 4096"
    unfolding s0_def s1_def by (rule sextets_trunc12[OF assms])
  show ?thesis
    by (simp add: d eq div_trunc12_hi)
qed

lemma decode_quanta_final2:
  assumes "v < 16777216"
  shows "decode_quanta [encode_sextet (v div 262144), encode_sextet (v div 4096),
                        encode_sextet (v div 64), padChar]
           = Some [of_nat (v div 65536), of_nat (v div 256)]"
proof -
  define s0 where "s0 = v div 262144 mod 64"
  define s1 where "s1 = v div 4096 mod 64"
  define s2 where "s2 = v div 64 mod 64"
  have d: "decode_sextet (encode_sextet (v div 262144)) = Some s0"
    "decode_sextet (encode_sextet (v div 4096)) = Some s1"
    "decode_sextet (encode_sextet (v div 64)) = Some s2"
    by (simp_all only: decode_encode_sextet s0_def s1_def s2_def)
  have eq: "s0 * 262144 + s1 * 4096 + s2 * 64 = v div 64 * 64"
    unfolding s0_def s1_def s2_def by (rule sextets_trunc6[OF assms])
  show ?thesis
    by (simp add: d eq encode_sextet_not_pad div_trunc6_hi div_trunc6_mid)
qed

lemma decode_quanta_full:
  assumes "v < 16777216" and "decode_quanta src = Some dst"
  shows "decode_quanta (encode_sextet (v div 262144) # encode_sextet (v div 4096) #
                        encode_sextet (v div 64) # encode_sextet v # src)
           = Some (of_nat (v div 65536) # of_nat (v div 256) # of_nat v # dst)"
proof -
  define s0 where "s0 = v div 262144 mod 64"
  define s1 where "s1 = v div 4096 mod 64"
  define s2 where "s2 = v div 64 mod 64"
  define s3 where "s3 = v mod 64"
  have d: "decode_sextet (encode_sextet (v div 262144)) = Some s0"
    "decode_sextet (encode_sextet (v div 4096)) = Some s1"
    "decode_sextet (encode_sextet (v div 64)) = Some s2"
    "decode_sextet (encode_sextet v) = Some s3"
    by (simp_all only: decode_encode_sextet s0_def s1_def s2_def s3_def)
  have eq: "s0 * 262144 + s1 * 4096 + s2 * 64 + s3 = v"
    unfolding s0_def s1_def s2_def s3_def by (rule sextets_full[OF assms(1)])
  show ?thesis
    by (simp add: d eq encode_sextet_not_pad assms(2))
qed

lemma decode_quanta_EncodeToString: "decode_quanta (EncodeToString src) = Some src"
proof (induction src rule: EncodeToString.induct)
  case 1
  show ?case by simp
next
  case (2 b0)
  define v where "v = unat b0 * 65536"
  have v: "v < 16777216" "of_nat (v div 65536) = b0"
    using byte3[of b0 0 0] by (simp_all add: v_def)
  have "EncodeToString [b0] =
          [encode_sextet (v div 262144), encode_sextet (v div 4096), padChar, padChar]"
    by (simp only: EncodeToString.simps Let_def v_def)
  then show ?case
    using decode_quanta_final1[OF v(1)] v(2) by simp
next
  case (3 b0 b1)
  define v where "v = unat b0 * 65536 + unat b1 * 256"
  have v: "v < 16777216" "of_nat (v div 65536) = b0" "of_nat (v div 256) = b1"
    using byte3[of b0 b1 0] by (simp_all add: v_def)
  have "EncodeToString [b0, b1] =
          [encode_sextet (v div 262144), encode_sextet (v div 4096),
           encode_sextet (v div 64), padChar]"
    by (simp only: EncodeToString.simps Let_def v_def)
  then show ?case
    using decode_quanta_final2[OF v(1)] v(2,3) by simp
next
  case (4 b0 b1 b2 src)
  define v where "v = unat b0 * 65536 + unat b1 * 256 + unat b2"
  have v: "v < 16777216" "of_nat (v div 65536) = b0" "of_nat (v div 256) = b1" "of_nat v = b2"
    using byte3[of b0 b1 b2] by (simp_all add: v_def)
  have "EncodeToString (b0 # b1 # b2 # src) =
          encode_sextet (v div 262144) # encode_sextet (v div 4096) #
          encode_sextet (v div 64) # encode_sextet v # EncodeToString src"
    by (simp only: EncodeToString.simps Let_def v_def append.simps)
  then show ?case
    using decode_quanta_full[OF v(1) 4] v(2,3,4) by simp
qed

lemma removeNewlines_EncodeToString: "removeNewlines (EncodeToString src) = EncodeToString src"
proof -
  have nl: "CHR 0x0D \<notin> set encodeStd" "CHR 0x0A \<notin> set encodeStd"
    by (simp_all add: encodeStd_def)
  have e: "encode_sextet v \<noteq> CHR 0x0D \<and> encode_sextet v \<noteq> CHR 0x0A" for v
    using encode_sextet_in[of v] nl by metis
  show ?thesis
    unfolding removeNewlines_def
    by (induction src rule: EncodeToString.induct) (simp_all add: e padChar_def Let_def)
qed

lemma DecodeString_EncodeToString: "DecodeString (EncodeToString src) = Some src"
  by (simp add: DecodeString_def removeNewlines_EncodeToString decode_quanta_EncodeToString)

section \<open>Facts about the flush and the loop\<close>

lemma marshalled_append: "marshalled e (xs @ ys) = marshalled e xs @ marshalled e ys"
  by (simp add: marshalled_def)

lemma Encode_snd: "snd (Encode e out v) = out @ marshalled e [v]"
  by (simp add: Encode_def marshalled_def encodable_def json_text_def split: sum.splits)

lemma encode_loop_lines:
  "n \<le> length requests \<Longrightarrow> k \<le> n \<Longrightarrow>
     encode_loop e requests n k out = Some (out @ marshalled e (drop k (take n requests)))"
proof (induction e requests n k out rule: encode_loop.induct)
  case (1 e requests n k out)
  show ?case
  proof (cases "k < n")
    case True
    with 1 have kl: "k < length requests" by simp
    have d: "drop k (take n requests) = requests ! k # drop (Suc k) (take n requests)"
      using True kl by (simp add: Cons_nth_drop_Suc[symmetric])
    have "encode_loop e requests n k out =
            encode_loop e requests n (Suc k) (snd (Encode e out (requests ! k)))"
      using True kl by (subst encode_loop.simps) simp
    also have "\<dots> = Some (snd (Encode e out (requests ! k)) @ marshalled e (drop (Suc k) (take n requests)))"
      using "1.IH"[OF True kl] "1.prems" True by simp
    finally show ?thesis
      unfolding d Encode_snd by (simp add: marshalled_def)
  next
    case False
    with 1 have "k = n" by simp
    then show ?thesis by (subst encode_loop.simps) (simp add: marshalled_def)
  qed
qed

lemma encode_loop_panics:
  "length requests < n \<Longrightarrow> k \<le> length requests \<Longrightarrow> encode_loop e requests n k out = None"
proof (induction e requests n k out rule: encode_loop.induct)
  case (1 e requests n k out)
  show ?case
  proof (cases "k < length requests")
    case True
    then have "encode_loop e requests n k out =
            encode_loop e requests n (Suc k) (snd (Encode e out (requests ! k)))"
      using 1 by (subst encode_loop.simps) simp
    then show ?thesis using "1.IH" "1.prems" True by simp
  next
    case False
    then show ?thesis using 1 by (subst encode_loop.simps) simp
  qed
qed

lemma genFileName_eq:
  "genFileName e ident w = (dest_at e ident (ticks w), w\<lparr>ticks := Suc (ticks w)\<rparr>)"
  by (simp add: genFileName_def time_Now_def dest_at_def)

lemma flush_created:
  assumes "util_Create e (dest_at e ident (ticks w)) = None" and "n \<le> length requests"
  shows "flush e requests ident n w =
           Some (w\<lparr>ticks := Suc (ticks w),
                   files := files w @ [(dest_at e ident (ticks w), marshalled e (take n requests))]\<rparr>)"
  using assms by (simp add: flush_def genFileName_eq encode_loop_lines)

lemma flush_create_fails:
  assumes "util_Create e (dest_at e ident (ticks w)) = Some err"
  shows "flush e requests ident n w =
           Some (w\<lparr>ticks := Suc (ticks w),
                   stdlog := stdlog w @ [''Error opening outfile  '' @ dest_at e ident (ticks w), err]\<rparr>)"
  using assms by (simp add: flush_def genFileName_eq log_Println_def)

lemma flush_no_panic:
  assumes "n \<le> length requests"
  shows "\<exists>w1. flush e requests ident n w = Some w1"
proof (cases "util_Create e (dest_at e ident (ticks w))")
  case None
  then show ?thesis using flush_created[OF None assms] by simp
next
  case (Some err)
  then show ?thesis using flush_create_fails[OF Some] by simp
qed




lemma Logger_select_store:
  assumes "Suc (cursor st) < 2048" and "length (buffer st) = 2048"
  shows "Logger_select e ident (NewPayload raw) st =
           Some (st\<lparr>buffer := (buffer st)[cursor st := NewLogRecord e (time_at e (ticks (outside st))) raw],
                   cursor := Suc (cursor st),
                   outside := (outside st)\<lparr>ticks := Suc (ticks (outside st))\<rparr>\<rparr>)"
  using assms by (simp add: time_Now_def Let_def)

lemma Logger_select_full:
  assumes "cursor st = 2047" and "length (buffer st) = 2048"
  shows "Logger_select e ident (NewPayload raw) st =
           (case flush e ((buffer st)[2047 := NewLogRecord e (time_at e (ticks (outside st))) raw])
                   ident 2048 ((outside st)\<lparr>ticks := Suc (ticks (outside st))\<rparr>) of
              None \<Rightarrow> None
            | Some w2 \<Rightarrow>
                Some (st\<lparr>buffer := (buffer st)[2047 := NewLogRecord e (time_at e (ticks (outside st))) raw],
                        cursor := 0, outside := w2\<rparr>))"
  using assms by (simp add: time_Now_def Let_def)



text \<open>
  The buffer bound: the loop never panics, the buffer keeps its 2048 slots and the cursor
  stays below 2048 between iterations, whatever is received and whatever the file system
  and the encoder do.
\<close>

lemma Logger_select_bound:
  assumes "length (buffer st) = 2048" and "cursor st < 2048"
  shows "\<exists>st'. Logger_select e ident ev st = Some st'
           \<and> length (buffer st') = 2048 \<and> cursor st' < 2048"
proof (cases ev)
  case (NewPayload raw)
  show ?thesis
  proof (cases "Suc (cursor st) < 2048")
    case True
    then show ?thesis
      using NewPayload assms Logger_select_store[OF True assms(1), of e ident raw] by simp
  next
    case False
    then have c: "cursor st = 2047" using assms(2) by simp
    let ?b = "(buffer st)[2047 := NewLogRecord e (time_at e (ticks (outside st))) raw]"
    obtain w2 where "flush e ?b ident 2048 ((outside st)\<lparr>ticks := Suc (ticks (outside st))\<rparr>) = Some w2"
      using flush_no_panic[of 2048 ?b e ident] assms(1) by auto
    then show ?thesis
      using NewPayload assms(1) Logger_select_full[OF c assms(1), of e ident raw] by simp
  qed
next
  case FlushNow
  obtain w1 where "flush e (buffer st) ident (cursor st) (outside st) = Some w1"
    using flush_no_panic[of "cursor st" "buffer st" e ident "outside st"] assms by auto
  then show ?thesis using FlushNow assms by simp
next
  case Shutdown
  obtain w1 where "flush e (buffer st) ident (cursor st) (outside st) = Some w1"
    using flush_no_panic[of "cursor st" "buffer st" e ident "outside st"] assms by auto
  then show ?thesis using Shutdown assms by simp
qed

lemma Logger_loop_bound:
  assumes "length (buffer st) = 2048" and "cursor st < 2048"
  shows "\<exists>st' rest. Logger_loop e ident evs st = Some (st', rest)
           \<and> length (buffer st') = 2048 \<and> cursor st' < 2048"
  using assms
proof (induction evs arbitrary: st)
  case Nil
  then show ?case by simp
next
  case (Cons ev evs)
  from Logger_select_bound[OF Cons.prems, of e ident ev]
  obtain st1 where st1: "Logger_select e ident ev st = Some st1"
    "length (buffer st1) = 2048" "cursor st1 < 2048"
    by blast
  show ?case
  proof (cases "stopped st1")
    case True
    then show ?thesis using st1 by simp
  next
    case False
    then show ?thesis using st1 Cons.IH[OF st1(2,3)] by simp
  qed
qed

lemma Logger_bound:
  "\<exists>st rest. Logger e ident evs w = Some (st, rest)
      \<and> length (buffer st) = 2048 \<and> cursor st < 2048"
  unfolding Logger_def by (rule Logger_loop_bound) (simp_all add: Logger_init_def)

section \<open>Facts about the concrete inputs and the relay\<close>

lemma encodable_env0: "encodable env0 v = (When v \<noteq> 1)"
  by (simp add: encodable_def env0_def)

lemma json_text_env0: "When v \<noteq> 1 \<Longrightarrow> json_text env0 v = Data_x64 v"
  by (simp add: json_text_def env0_def)



lemma util_Create_env0: "util_Create env0 dest = None"
  by (simp add: env0_def)

lemma util_Create_env_denied: "util_Create env_denied dest = Some ''permission denied''"
  by (simp add: env_denied_def)

lemma dest_at_env0: "dest_at env0 ''p1'' 0 = ''/tmp/set_bit_log/2013/08/01/12/00-00.p1.log''"
  by (simp add: dest_at_def env0_def)

lemma gunzip0_gzip_stream: "gunzip0 (gzip_stream env0 d) = Some d"
  by (simp add: gunzip0_def env0_def)

lemma state5_shape: "length (buffer state5) = 2048" "cursor state5 = 5" "\<not> stopped state5"
  "outside state5 = world0"
  by (simp_all add: state5_def five_records_def)

lemma streamer_start_eq:
  "streamer_start s =
     (length (chans s), Suc (length (chans s)),
      s\<lparr>chans := chans s @ [\<lparr>capacity = 10, queue = [], closed = False\<rparr>,
                            \<lparr>capacity = 10, queue = [], closed = False\<rparr>],
        events := events s @ [(''inbox'', length (chans s)), (''outbox'', Suc (length (chans s)))]\<rparr>)"
  by (simp add: streamer_start_def make_chan_def notify_Start_def)

lemma drain_blocks: "\<not> ready ch s \<Longrightarrow> drain ch s = Blocked InReceive s"
  by (subst drain.simps) simp


text \<open>
  When the bus leaves a channel open as it unregisters it, the teardown waits in
  \<^verbatim>\<open>drain(inbox)\<close> whenever the inbox is empty at that moment.
\<close>

lemma notify_Stop_open_chans: "chans (notify_Stop False event ch s) = chans s"
  by (simp add: notify_Stop_def)

lemma teardown_waits_on_empty_inbox:
  assumes "inbox < length (chans s)" and "queue (chans s ! inbox) = []"
    and "\<not> closed (chans s ! inbox)"
  shows "teardown False inbox outbox s =
           Blocked InReceive
             (notify_Stop False ''outbox'' outbox
               (notify_Stop False ''inbox'' inbox (s\<lparr>relay_log := relay_log s @ [''stopping'']\<rparr>)))"
proof -
  let ?s3 = "notify_Stop False ''outbox'' outbox
               (notify_Stop False ''inbox'' inbox (s\<lparr>relay_log := relay_log s @ [''stopping'']\<rparr>))"
  have "chans ?s3 = chans s"
    by (simp add: notify_Stop_open_chans)
  then have "\<not> ready inbox ?s3"
    using assms by (simp add: ready_def)
  then have "drain inbox ?s3 = Blocked InReceive ?s3"
    by (rule drain_blocks)
  then show ?thesis
    by (simp add: teardown_def Let_def)
qed

text \<open>
  When the bus closes a channel as it unregisters it, the same teardown returns: the
  receive in \<^verbatim>\<open>drain\<close> yields nil at once.
\<close>

lemma teardown_returns_when_Stop_closes:
  "streamer_loop True gone (\<lambda>k. True) 0 1 0 one_pending =
     Returns
       \<lparr>chans = [\<lparr>capacity = 10, queue = [], closed = True\<rparr>,
                 \<lparr>capacity = 10, queue = [], closed = True\<rparr>],
        events = [], conn = [], relay_log = [''stopping'']\<rparr>"
  by (simp add: streamer_loop.simps relay_once_def select_case_def ready_def one_pending_def
      receive_def ping_def gone_def teardown_def notify_Stop_def drain.simps)

text \<open>
  \<^verbatim>\<open>drain\<close> stops at the first value that is not the boolean \<^verbatim>\<open>true\<close>: what is
  buffered behind it stays in the channel.
\<close>

lemma drain_takes_one:
  assumes "ch < length (chans s)" and "queue (chans s ! ch) = v # vs" and "v \<noteq> BoolObj True"
  shows "drain ch s = Returns (s\<lparr>chans := (chans s)[ch := (chans s ! ch)\<lparr>queue := vs\<rparr>]\<rparr>)"
  using assms by (subst drain.simps) (simp add: ready_def receive_def)

section \<open>The claims\<close>

subsection \<open>C1: a record decodes to its payload\<close>

text \<open>
  C1. For every byte payload \<open>P\<close>, decoding the \<open>Data_x64\<close> field of the record made from
  \<open>P\<close> (base64-decode, then gunzip) gives exactly \<open>P\<close>. The compressor is the
  library \<^verbatim>\<open>compress/gzip\<close>: the statement holds for every compressor whose
  decompressor gives back what was compressed. The base64 round trip is proved above.
\<close>

theorem log_record_round_trip:
  assumes "\<And>d. gunzip (gzip_stream e d) = Some d"
  shows "decode_Data_x64 gunzip (NewLogRecord e t P) = Some P"
  using assms by (simp add: decode_Data_x64_def NewLogRecord_def DecodeString_EncodeToString)

theorem log_record_round_trip_witness:
  "(\<forall>d. gunzip0 (gzip_stream env0 d) = Some d) \<and>
   Data_x64 (NewLogRecord env0 7 [72, 105]) = ''H4tIaQ=='' \<and>
   decode_Data_x64 gunzip0 (NewLogRecord env0 7 [72, 105]) = Some [72, 105]"
proof -
  have h: "gunzip0 (gzip_stream env0 d) = Some d" for d
    by (rule gunzip0_gzip_stream)
  have enc: "Data_x64 (NewLogRecord env0 7 [72, 105]) = ''H4tIaQ==''"
    by (simp add: NewLogRecord_def env0_def encode_sextet_def encodeStd_def padChar_def)
  show ?thesis
    using log_record_round_trip[of gunzip0 env0 7 "[72, 105]", OF h] h enc by simp
qed

subsection \<open>C2: the teardown after a failed write\<close>


subsection \<open>C3: the full buffer\<close>



subsection \<open>C4: the flush-now signal\<close>

text \<open>
  C4. On a flush-now signal with a cursor above 0, \<^verbatim>\<open>Logger\<close> writes the records at
  indices below the cursor to one new file and sets the cursor to 0; with the cursor at 0
  the state is unchanged and no file is created. The statement is for a destination that
  can be created; the file holds the line of each of those records that marshals.
\<close>

theorem flush_now:
  assumes "cursor st \<le> length (buffer st)"
    and "util_Create e (dest_at e ident (ticks (outside st))) = None"
  shows "Logger_select e ident FlushNow st =
           (if cursor st > 0 then
              Some (st\<lparr>cursor := 0,
                      outside := (outside st)\<lparr>ticks := Suc (ticks (outside st)),
                        files := files (outside st) @
                          [(dest_at e ident (ticks (outside st)),
                            map (json_text e) (filter (encodable e) (take (cursor st) (buffer st))))]\<rparr>\<rparr>)
            else Some st)"
  using assms flush_created[of e ident "outside st" "cursor st" "buffer st"]
  by (simp add: marshalled_def)

theorem flush_now_witness:
  "cursor state5 \<le> length (buffer state5) \<and>
   util_Create env0 (dest_at env0 ''p1'' (ticks (outside state5))) = None \<and>
   Logger_select env0 ''p1'' FlushNow state5 =
     Some (state5\<lparr>cursor := 0,
             outside := \<lparr>ticks = 1,
               files = [(''/tmp/set_bit_log/2013/08/01/12/00-00.p1.log'',
                         replicate 5 ''H4sIAAAAAAAA'')],
               stdlog = []\<rparr>\<rparr>) \<and>
   Logger_select env0 ''p1'' FlushNow (state5\<lparr>cursor := 0\<rparr>) = Some (state5\<lparr>cursor := 0\<rparr>)"
proof -
  have h1: "cursor state5 \<le> length (buffer state5)"
    by (simp add: state5_def five_records_def)
  have h2: "util_Create env0 (dest_at env0 ''p1'' (ticks (outside state5))) = None"
    by (rule util_Create_env0)
  have h1': "cursor (state5\<lparr>cursor := 0\<rparr>) \<le> length (buffer (state5\<lparr>cursor := 0\<rparr>))"
    by simp
  have h2': "util_Create env0 (dest_at env0 ''p1'' (ticks (outside (state5\<lparr>cursor := 0\<rparr>)))) = None"
    by (rule util_Create_env0)
  have t: "take 5 (buffer state5) = five_records"
    by (simp add: state5_def five_records_def)
  have d: "dest_at env0 ''p1'' 0 = ''/tmp/set_bit_log/2013/08/01/12/00-00.p1.log''"
    by (simp add: dest_at_def env0_def)
  have m: "map (json_text env0) (filter (encodable env0) five_records) = replicate 5 ''H4sIAAAAAAAA''"
    by (simp add: five_records_def encodable_env0 json_text_env0 numeral_eq_Suc)
  have c: "cursor state5 = 5" "outside state5 = world0" by (simp_all add: state5_def)
  show ?thesis
    using flush_now[OF h1 h2] flush_now[OF h1' h2'] h1 h2
    by (simp add: c t d m world0_def)
qed

subsection \<open>C5: the shutdown signal\<close>

text \<open>
  C5. On a shutdown signal \<^verbatim>\<open>Logger\<close> runs the flush whatever the cursor is (the clock
  is read, and the file is created or the failure to create it is printed), prints
  the shutdown notice and returns; whatever is still to be received is left unreceived.
\<close>

theorem shutdown_flushes_and_stops:
  assumes "cursor st \<le> length (buffer st)"
  shows "Logger_loop e ident (Shutdown # evs) st =
           Some (st\<lparr>stopped := True,
                   outside :=
                     (case util_Create e (dest_at e ident (ticks (outside st))) of
                        None \<Rightarrow>
                          (outside st)\<lparr>ticks := Suc (ticks (outside st)),
                            files := files (outside st) @
                              [(dest_at e ident (ticks (outside st)),
                                map (json_text e)
                                  (filter (encodable e) (take (cursor st) (buffer st))))],
                            stdlog := stdlog (outside st) @ [''Shutdown Logger'']\<rparr>
                      | Some err \<Rightarrow>
                          (outside st)\<lparr>ticks := Suc (ticks (outside st)),
                            stdlog := stdlog (outside st) @
                              [''Error opening outfile  '' @ dest_at e ident (ticks (outside st)),
                               err, ''Shutdown Logger'']\<rparr>)\<rparr>,
                 evs)"
proof (cases "util_Create e (dest_at e ident (ticks (outside st)))")
  case None
  from flush_created[OF None assms] show ?thesis
    using None by (simp add: log_Println_def marshalled_def)
next
  case (Some err)
  from flush_create_fails[OF Some, of "buffer st" "cursor st"] show ?thesis
    using Some by (simp add: log_Println_def)
qed

theorem shutdown_flushes_and_stops_witness:
  "cursor (Logger_init world0) \<le> length (buffer (Logger_init world0)) \<and>
   Logger_loop env0 ''p1'' [Shutdown, NewPayload [1], FlushNow] (Logger_init world0) =
     Some ((Logger_init world0)\<lparr>stopped := True,
             outside := \<lparr>ticks = 1,
                          files = [(''/tmp/set_bit_log/2013/08/01/12/00-00.p1.log'', [])],
                          stdlog = [''Shutdown Logger'']\<rparr>\<rparr>,
           [NewPayload [1], FlushNow])"
proof -
  have h: "cursor (Logger_init world0) \<le> length (buffer (Logger_init world0))"
    by (simp add: Logger_init_def)
  have c: "util_Create env0 dest = None" for dest by (simp add: env0_def)
  have d: "dest_at env0 ''p1'' 0 = ''/tmp/set_bit_log/2013/08/01/12/00-00.p1.log''"
    by (simp add: dest_at_def env0_def)
  show ?thesis
    supply Logger_loop.simps [simp del]
    using shutdown_flushes_and_stops[OF h, of env0 "''p1''" "[NewPayload [1], FlushNow]"] h
    by (simp add: Logger_init_def c d world0_def)
qed

subsection \<open>C6: a file that cannot be created\<close>

text \<open>
  C6. When the file cannot be created during a flush, the error is printed and the cycle
  is given up: no file is written, the cursor is set to 0 all the same, a flush-now right
  after it writes nothing, and the loop goes on with the next thing received, storing the
  next payload at index 0. This holds on the flush-now path (state \<open>st\<close>) and on the
  full-buffer path (state \<open>st2\<close>).
\<close>

theorem create_failure_abandons_cycle:
  assumes "length (buffer st) = 2048" and "0 < cursor st" and "cursor st < 2048"
    and "\<not> stopped st"
    and "util_Create e (dest_at e ident (ticks (outside st))) = Some err"
    and "length (buffer st2) = 2048" and "cursor st2 = 2047" and "\<not> stopped st2"
    and "util_Create e (dest_at e ident (Suc (ticks (outside st2)))) = Some err2"
  shows "Logger_loop e ident (FlushNow # evs) st =
             Logger_loop e ident evs
               (st\<lparr>cursor := 0,
                   outside := (outside st)\<lparr>ticks := Suc (ticks (outside st)),
                     stdlog := stdlog (outside st) @
                       [''Error opening outfile  '' @ dest_at e ident (ticks (outside st)), err]\<rparr>\<rparr>)
         \<and> Logger_loop e ident (FlushNow # FlushNow # evs) st =
             Logger_loop e ident (FlushNow # evs) st
         \<and> Logger_select e ident (NewPayload raw)
               (st\<lparr>cursor := 0,
                   outside := (outside st)\<lparr>ticks := Suc (ticks (outside st)),
                     stdlog := stdlog (outside st) @
                       [''Error opening outfile  '' @ dest_at e ident (ticks (outside st)), err]\<rparr>\<rparr>) =
             Some (st\<lparr>buffer := (buffer st)[0 := NewLogRecord e (time_at e (Suc (ticks (outside st)))) raw],
                     cursor := 1,
                     outside := (outside st)\<lparr>ticks := Suc (Suc (ticks (outside st))),
                       stdlog := stdlog (outside st) @
                         [''Error opening outfile  '' @ dest_at e ident (ticks (outside st)), err]\<rparr>\<rparr>)
         \<and> Logger_loop e ident (NewPayload raw # evs) st2 =
             Logger_loop e ident evs
               (st2\<lparr>buffer := (buffer st2)[2047 := NewLogRecord e (time_at e (ticks (outside st2))) raw],
                   cursor := 0,
                   outside := (outside st2)\<lparr>ticks := Suc (Suc (ticks (outside st2))),
                     stdlog := stdlog (outside st2) @
                       [''Error opening outfile  '' @ dest_at e ident (Suc (ticks (outside st2))),
                        err2]\<rparr>\<rparr>)"
proof -
  have a: "Logger_select e ident FlushNow st =
           Some (st\<lparr>cursor := 0,
                   outside := (outside st)\<lparr>ticks := Suc (ticks (outside st)),
                     stdlog := stdlog (outside st) @
                       [''Error opening outfile  '' @ dest_at e ident (ticks (outside st)), err]\<rparr>\<rparr>)"
    using assms(2,5) flush_create_fails[of e ident "outside st" err "buffer st" "cursor st"]
    by simp
  have b: "Logger_select e ident (NewPayload raw) st2 =
             Some (st2\<lparr>buffer := (buffer st2)[2047 := NewLogRecord e (time_at e (ticks (outside st2))) raw],
                   cursor := 0,
                   outside := (outside st2)\<lparr>ticks := Suc (Suc (ticks (outside st2))),
                     stdlog := stdlog (outside st2) @
                       [''Error opening outfile  '' @ dest_at e ident (Suc (ticks (outside st2))),
                        err2]\<rparr>\<rparr>)"
    using assms(6,7,9)
      flush_create_fails[of e ident "(outside st2)\<lparr>ticks := Suc (ticks (outside st2))\<rparr>" err2
        "(buffer st2)[2047 := NewLogRecord e (time_at e (ticks (outside st2))) raw]" 2048]
    by (simp add: time_Now_def)
  show ?thesis
    using a b assms(1,3,4,8) by (simp add: time_Now_def)
qed

theorem create_failure_abandons_cycle_witness:
  "length (buffer state5) = 2048 \<and> 0 < cursor state5 \<and> cursor state5 < 2048 \<and> \<not> stopped state5 \<and>
   util_Create env_denied (dest_at env_denied ''p1'' (ticks (outside state5))) = Some ''permission denied'' \<and>
   length (buffer (state5\<lparr>cursor := 2047\<rparr>)) = 2048 \<and> cursor (state5\<lparr>cursor := 2047\<rparr>) = 2047 \<and>
   \<not> stopped (state5\<lparr>cursor := 2047\<rparr>) \<and>
   util_Create env_denied (dest_at env_denied ''p1'' (Suc (ticks (outside (state5\<lparr>cursor := 2047\<rparr>)))))
     = Some ''permission denied'' \<and>
   Logger_loop env_denied ''p1'' [FlushNow] state5 =
     Some (state5\<lparr>cursor := 0,
             outside := \<lparr>ticks = 1, files = [],
               stdlog = [''Error opening outfile  '' @ dest_at env_denied ''p1'' 0,
                         ''permission denied'']\<rparr>\<rparr>, []) \<and>
   Logger_loop env_denied ''p1'' [FlushNow, FlushNow] state5 =
     Logger_loop env_denied ''p1'' [FlushNow] state5"
proof -
  have h: "length (buffer state5) = 2048" "0 < cursor state5" "cursor state5 < 2048"
    "\<not> stopped state5"
    "util_Create env_denied (dest_at env_denied ''p1'' (ticks (outside state5))) = Some ''permission denied''"
    "length (buffer (state5\<lparr>cursor := 2047\<rparr>)) = 2048" "cursor (state5\<lparr>cursor := 2047\<rparr>) = 2047"
    "\<not> stopped (state5\<lparr>cursor := 2047\<rparr>)"
    "util_Create env_denied (dest_at env_denied ''p1'' (Suc (ticks (outside (state5\<lparr>cursor := 2047\<rparr>)))))
       = Some ''permission denied''"
    by (simp_all add: state5_shape util_Create_env_denied)
  note th = create_failure_abandons_cycle[OF h, of "[]" "[]"]
  have one: "Logger_loop env_denied ''p1'' [FlushNow] state5 =
     Some (state5\<lparr>cursor := 0,
             outside := \<lparr>ticks = 1, files = [],
               stdlog = [''Error opening outfile  '' @ dest_at env_denied ''p1'' 0,
                         ''permission denied'']\<rparr>\<rparr>, [])"
    using th by (simp add: state5_shape world0_def)
  have two: "Logger_loop env_denied ''p1'' [FlushNow, FlushNow] state5 =
     Logger_loop env_denied ''p1'' [FlushNow] state5"
    using th by blast
  show ?thesis
    using h one two by blast
qed

subsection \<open>C7: the dump is taken first and sent last\<close>

text \<open>
  C7. In the wrapped operation the dump is taken from the request as it arrives, before
  the inner handler runs, and it is sent on the channel after the inner handler has
  returned: the value sent is the dump of the request as received, whatever the handler
  did to the request, and it is put behind whatever the handler itself left on the
  channel. If the handler does not return, nothing is sent; if the channel is full, the
  caller waits.
\<close>

theorem dump_before_handler_send_after:
  assumes "DumpRequest (exchange s) = (Inr dump, x1)"
  shows "Handle DumpRequest handler s =
           (case handler (s\<lparr>exchange := x1\<rparr>) of
              None \<Rightarrow> Panic
            | Some s2 \<Rightarrow>
                if closed (logger s2) then Panic
                else if length (queue (logger s2)) < capacity (logger s2)
                then Returns (s2\<lparr>logger := (logger s2)\<lparr>queue := queue (logger s2) @ [dump]\<rparr>\<rparr>)
                else Blocked InSend s2)"
  using assms by (simp add: Handle_def chan_send_def split: option.splits)

theorem dump_before_handler_send_after_witness:
  "dump_ok (exchange request0) = (Inr [1, 2, 3], [1, 2, 3]) \<and>
   Handle dump_ok consuming_handler request0 =
     Returns \<lparr>exchange = [], printed = [],
               logger = \<lparr>capacity = 1024, queue = [[7], [1, 2, 3]], closed = False\<rparr>\<rparr>"
proof -
  have h: "dump_ok (exchange request0) = (Inr [1, 2, 3], [1, 2, 3])"
    by (simp add: dump_ok_def request0_def)
  show ?thesis
    using dump_before_handler_send_after[where DumpRequest = dump_ok and s = request0
        and dump = "[1, 2, 3]" and ?x1.0 = "[1, 2, 3]" and handler = consuming_handler, OF h] h
    by (simp add: consuming_handler_def request0_def)
qed

subsection \<open>C8: what a relay subscribes to\<close>

text \<open>
  C8, as stated: at startup a relay subscribes to the events named \<open>inbound\<close> and
  \<open>outbound\<close>. It does not: on a bus with no registrations, neither name is registered
  after startup; the names registered are \<open>inbox\<close> and \<open>outbox\<close>.
\<close>

theorem streamer_topics_counterexample:
  "''inbound'' \<notin> set (map fst (events (snd (snd (streamer_start relay0)))))
   \<and> ''outbound'' \<notin> set (map fst (events (snd (snd (streamer_start relay0)))))
   \<and> map fst (events (snd (snd (streamer_start relay0)))) = [''inbox'', ''outbox'']"
  by (simp add: streamer_start_eq relay0_def)

text \<open>
  C8, amended: at startup a relay makes two channels of capacity 10, both empty and open,
  and registers the first for the event \<open>inbox\<close> and the second for the event \<open>outbox\<close>;
  nothing else changes.
\<close>

theorem streamer_subscribes:
  "(case streamer_start s of
      (inbox, outbox, s') \<Rightarrow>
        inbox = length (chans s) \<and> outbox = Suc (length (chans s))
        \<and> events s' = events s @ [(''inbox'', inbox), (''outbox'', outbox)]
        \<and> chans s' = chans s @ [\<lparr>capacity = 10, queue = [], closed = False\<rparr>,
                                 \<lparr>capacity = 10, queue = [], closed = False\<rparr>]
        \<and> conn s' = conn s \<and> relay_log s' = relay_log s)"
  by (simp add: streamer_start_def make_chan_def notify_Start_def)

subsection \<open>C9: a dump that fails\<close>

text \<open>
  C9. When the dump fails, the failure is only printed: the inner handler still runs, the
  nil dump is still sent on the channel, and \<^verbatim>\<open>Logger\<close>, receiving it, stores the record
  of the empty payload.
\<close>

theorem dump_failure_still_archived:
  assumes "DumpRequest (exchange s) = (Inl failure, x1)"
    and "handler (s\<lparr>exchange := x1, printed := printed s @ [''Dump Failure '' @ failure]\<rparr>) = Some s'"
    and "\<not> closed (logger s')" and "length (queue (logger s')) < capacity (logger s')"
    and "length (buffer st) = 2048" and "Suc (cursor st) < 2048"
  shows "Handle DumpRequest handler s =
           Returns (s'\<lparr>logger := (logger s')\<lparr>queue := queue (logger s') @ [[]]\<rparr>\<rparr>)
       \<and> Logger_select e ident (NewPayload []) st =
           Some (st\<lparr>buffer := (buffer st)[cursor st :=
                                  \<lparr>When = time_at e (ticks (outside st)),
                                   Data_x64 = EncodeToString (gzip_stream e [])\<rparr>],
                   cursor := Suc (cursor st),
                   outside := (outside st)\<lparr>ticks := Suc (ticks (outside st))\<rparr>\<rparr>)"
  using assms Logger_select_store[of st e ident "[]"]
  by (simp add: Handle_def chan_send_def NewLogRecord_def)

theorem dump_failure_still_archived_witness:
  "dump_fails (exchange request0) = (Inl ''unexpected EOF'', []) \<and>
   Handle dump_fails consuming_handler request0 =
     Returns \<lparr>exchange = [], printed = [''Dump Failure unexpected EOF''],
               logger = \<lparr>capacity = 1024, queue = [[7], []], closed = False\<rparr>\<rparr> \<and>
   Logger_select env0 ''p1'' (NewPayload []) state5 =
     Some (state5\<lparr>buffer := (buffer state5)[5 := \<lparr>When = 0, Data_x64 = ''H4s=''\<rparr>],
             cursor := 6, outside := \<lparr>ticks = 1, files = [], stdlog = []\<rparr>\<rparr>)"
proof -
  let ?s2 = "\<lparr>exchange = [], printed = [''Dump Failure unexpected EOF''],
               logger = \<lparr>capacity = 1024, queue = [[7 :: byte]], closed = False\<rparr>\<rparr>"
  have h1: "dump_fails (exchange request0) = (Inl ''unexpected EOF'', [])"
    by (simp add: dump_fails_def)
  have h2: "consuming_handler (request0\<lparr>exchange := [],
              printed := printed request0 @ [''Dump Failure '' @ ''unexpected EOF'']\<rparr>) = Some ?s2"
    by (simp add: consuming_handler_def request0_def)
  have h3: "\<not> closed (logger ?s2)" and h4: "length (queue (logger ?s2)) < capacity (logger ?s2)"
    by simp_all
  have h5: "length (buffer state5) = 2048" and h6: "Suc (cursor state5) < 2048"
    by (simp_all add: state5_shape)
  have enc: "EncodeToString (gzip_stream env0 []) = ''H4s=''"
    by (simp add: env0_def encode_sextet_def encodeStd_def padChar_def)
  have t: "time_at env0 0 = 0" by (simp add: env0_def)
  show ?thesis
    using dump_failure_still_archived[where DumpRequest = dump_fails
        and handler = consuming_handler and s = request0 and failure = "''unexpected EOF''"
        and ?x1.0 = "[]" and s' = ?s2 and st = state5 and e = env0 and ident = "''p1''",
        OF h1 h2 h3 h4 h5 h6] h1
    by (simp add: enc t state5_shape world0_def)
qed

subsection \<open>C10: a record that does not encode\<close>

text \<open>
  C10. In a flush, the error of encoding a record is dropped: the flush goes on with the
  records that follow, prints nothing, and the file holds the lines of exactly those
  records below the cursor that marshal, in order.
\<close>

theorem encode_errors_skipped:
  assumes "util_Create e (dest_at e ident (ticks w)) = None" and "n \<le> length requests"
  shows "flush e requests ident n w =
           Some (w\<lparr>ticks := Suc (ticks w),
                   files := files w @
                     [(dest_at e ident (ticks w),
                       map (json_text e) (filter (encodable e) (take n requests)))]\<rparr>)"
  using flush_created[OF assms] by (simp add: marshalled_def)

theorem encode_errors_skipped_witness:
  "util_Create env0 (dest_at env0 ''p1'' (ticks world0)) = None \<and>
   (3 :: nat) \<le> length three_records \<and>
   \<not> encodable env0 (three_records ! 1) \<and>
   flush env0 three_records ''p1'' 3 world0 =
     Some \<lparr>ticks = 1,
            files = [(''/tmp/set_bit_log/2013/08/01/12/00-00.p1.log'', [''AAAA'', ''CCCC''])],
            stdlog = []\<rparr>"
proof -
  have h1: "util_Create env0 (dest_at env0 ''p1'' (ticks world0)) = None"
    by (rule util_Create_env0)
  have h2: "(3 :: nat) \<le> length three_records"
    by (simp add: three_records_def)
  have bad: "\<not> encodable env0 (three_records ! 1)"
    by (simp add: three_records_def encodable_env0)
  have t: "map (json_text env0) (filter (encodable env0) (take 3 three_records)) = [''AAAA'', ''CCCC'']"
    by (simp add: three_records_def encodable_env0 json_text_env0)
  have "flush env0 three_records ''p1'' 3 world0 =
     Some \<lparr>ticks = 1,
            files = [(''/tmp/set_bit_log/2013/08/01/12/00-00.p1.log'', [''AAAA'', ''CCCC''])],
            stdlog = []\<rparr>"
    using encode_errors_skipped[OF h1 h2] by (simp add: t world0_def dest_at_env0)
  then show ?thesis using h1 h2 bad by blast
qed

end
